theory Spec2Isabelle
  imports Main "HOL-Library.AList"
begin

section \<open>Python values\<close>

text \<open>
  A Python \<open>str\<close> is a sequence of Unicode code points, so it is modelled as a list of
  natural numbers. \<open>ascii\<close> turns an ASCII literal into such a list.
\<close>

type_synonym pystr = "nat list"

definition ascii :: "string \<Rightarrow> pystr" where
  "ascii s = map of_char s"

text \<open>
  \<open>str.isspace\<close> of CPython: the code points with bidirectional type WS, B or S, or of
  category Zs. \<open>str.strip()\<close> removes exactly these from both ends.
\<close>

definition isspace :: "nat \<Rightarrow> bool" where
  "isspace c \<longleftrightarrow>
     (9 \<le> c \<and> c \<le> 13) \<or> (28 \<le> c \<and> c \<le> 32) \<or> c = 133 \<or> c = 160 \<or> c = 5760 \<or>
     (8192 \<le> c \<and> c \<le> 8202) \<or> c = 8232 \<or> c = 8233 \<or> c = 8239 \<or> c = 8287 \<or> c = 12288"

definition lstrip :: "pystr \<Rightarrow> pystr" where
  "lstrip s = dropWhile isspace s"

definition rstrip :: "pystr \<Rightarrow> pystr" where
  "rstrip s = rev (dropWhile isspace (rev s))"

definition strip :: "pystr \<Rightarrow> pystr" where
  "strip s = rstrip (lstrip s)"

text \<open>
  \<open>str.lower()\<close> is only ever compared with \<open>'done'\<close> (in \<open>normalize_record\<close>). No
  code point outside ASCII has a lowercase form that contains one of d, o, n, e, so the
  ASCII lowering below decides that comparison exactly as Python's full Unicode one.
\<close>

definition lower_char :: "nat \<Rightarrow> nat" where
  "lower_char c = (if 65 \<le> c \<and> c \<le> 90 then c + 32 else c)"

definition lower :: "pystr \<Rightarrow> pystr" where
  "lower s = map lower_char s"

text \<open>
  A Python \<open>float\<close> is a sign, a mantissa and a binary exponent (the value
  \<open>\<plusminus> m * 2 ^ e\<close>), an infinity or a NaN; \<open>json.loads\<close> produces all of them.
\<close>

datatype pyfloat = Finite bool nat int | Inf bool | NaN

text \<open>The values \<open>json.loads\<close> returns. A \<open>dict\<close> keeps its insertion order.\<close>

datatype json =
    JNull
  | JBool bool
  | JInt int
  | JFloat pyfloat
  | JStr pystr
  | JList "json list"
  | JObj "(pystr \<times> json) list"

type_synonym pydict = "(pystr \<times> json) list"

datatype error =
    TypeError
  | KeyError
  | ValueError
  | OverflowError
  | FileNotFoundError
  | ValidationError
  | HTTP_404

text \<open>Truth value testing (\<open>if v\<close>, \<open>v or w\<close>).\<close>

fun truthy :: "json \<Rightarrow> bool" where
  "truthy JNull = False"
| "truthy (JBool b) = b"
| "truthy (JInt i) = (i \<noteq> 0)"
| "truthy (JFloat (Finite s m e)) = (m \<noteq> 0)"
| "truthy (JFloat (Inf s)) = True"
| "truthy (JFloat NaN) = True"
| "truthy (JStr s) = (s \<noteq> [])"
| "truthy (JList xs) = (xs \<noteq> [])"
| "truthy (JObj kvs) = (kvs \<noteq> [])"

text \<open>\<open>a or b\<close>\<close>

definition py_or :: "json \<Rightarrow> json \<Rightarrow> json" where
  "py_or a b = (if truthy a then a else b)"

text \<open>
  Lists and dicts are unhashable: testing them for membership in a \<open>set\<close> raises
  \<open>TypeError\<close>.
\<close>

fun hashable :: "json \<Rightarrow> bool" where
  "hashable (JList xs) = False"
| "hashable (JObj kvs) = False"
| "hashable v = True"

text \<open>
  Two built-ins are taken as parameters, since their exact results depend on CPython's
  float printing, \<open>repr\<close> of strings and the Unicode database: \<open>str(v)\<close> for a float,
  list or dict \<open>v\<close>, and \<open>int(s)\<close> for a string \<open>s\<close> (\<open>None\<close> when it raises
  \<open>ValueError\<close>). Every theorem below holds for all choices of the two.
\<close>

record pylib =
  repr_of :: "json \<Rightarrow> pystr"
  int_of_str :: "pystr \<Rightarrow> int option"

fun digits :: "nat \<Rightarrow> pystr" where
  "digits n = (if n < 10 then [48 + n] else digits (n div 10) @ [48 + n mod 10])"

definition str_int :: "int \<Rightarrow> pystr" where
  "str_int i = (if i < 0 then 45 # digits (nat (- i)) else digits (nat i))"

text \<open>\<open>str(v)\<close>\<close>

definition py_str :: "pylib \<Rightarrow> json \<Rightarrow> pystr" where
  "py_str B v =
     (case v of
        JStr s \<Rightarrow> s
      | JNull \<Rightarrow> ascii ''None''
      | JBool b \<Rightarrow> (if b then ascii ''True'' else ascii ''False'')
      | JInt i \<Rightarrow> str_int i
      | _ \<Rightarrow> repr_of B v)"

text \<open>\<open>int(f)\<close> for a float truncates towards zero, and raises on infinities and NaN.\<close>

fun float_to_int :: "pyfloat \<Rightarrow> error + int" where
  "float_to_int (Finite s m e) =
     (let a = (if 0 \<le> e then int m * 2 ^ nat e else int m div 2 ^ nat (- e))
      in Inr (if s then - a else a))"
| "float_to_int (Inf s) = Inl OverflowError"
| "float_to_int NaN = Inl ValueError"

text \<open>\<open>int(v)\<close>\<close>

definition py_int :: "pylib \<Rightarrow> json \<Rightarrow> error + int" where
  "py_int B v =
     (case v of
        JInt i \<Rightarrow> Inr i
      | JBool b \<Rightarrow> Inr (if b then 1 else 0)
      | JFloat f \<Rightarrow> float_to_int f
      | JStr s \<Rightarrow> (case int_of_str B s of None \<Rightarrow> Inl ValueError | Some i \<Rightarrow> Inr i)
      | _ \<Rightarrow> Inl TypeError)"

subsection \<open>Dictionaries\<close>

text \<open>
  A dict is an association list in insertion order. \<open>d[k] = v\<close> is \<open>AList.update k v d\<close>
  (overwrite in place, or append), \<open>d.pop(k, None)\<close> leaves \<open>AList.delete k d\<close>.
\<close>

text \<open>\<open>k in d\<close>\<close>

definition has_key :: "pydict \<Rightarrow> pystr \<Rightarrow> bool" where
  "has_key d k = (map_of d k \<noteq> None)"

text \<open>\<open>d.get(k)\<close>, also \<open>d.pop(k, None)\<close>'s value: Python's \<open>None\<close> when the key is absent.\<close>

definition dget :: "pydict \<Rightarrow> pystr \<Rightarrow> json" where
  "dget d k = (case map_of d k of None \<Rightarrow> JNull | Some v \<Rightarrow> v)"

section \<open>The schema migrator: \<open>normalize_record\<close> (server.py)\<close>

definition UNSOLVED_STAGES :: "json list" where
  "UNSOLVED_STAGES =
     [JStr [26410, 30475, 39064],
      JStr [24050, 30475, 39064, 26080, 24605, 36335],
      JStr [30693, 36947, 20570, 27861, 26410, 23454, 29616]]"

text \<open>
  \<^verbatim>\<open>if 'solved' not in rec:
    status = str(rec.get('status') or '').lower()
    rec['solved'] = True if status == 'done' else False\<close>
\<close>

definition norm_solved :: "pylib \<Rightarrow> pydict \<Rightarrow> pydict" where
  "norm_solved B rec =
     (if \<not> has_key rec (ascii ''solved'') then
        let status = lower (py_str B (py_or (dget rec (ascii ''status'')) (JStr [])))
        in AList.update (ascii ''solved'') (JBool (status = ascii ''done'')) rec
      else rec)"

text \<open>
  \<^verbatim>\<open>if 'unsolved_stage' not in rec:
    rec['unsolved_stage'] = None
else:
    stage = rec.get('unsolved_stage')
    if stage not in {...three stages...}:
        rec['unsolved_stage'] = None\<close>
  The membership test hashes \<open>stage\<close>, and raises \<open>TypeError\<close> for a list or a dict.
\<close>

definition norm_stage :: "pydict \<Rightarrow> error + pydict" where
  "norm_stage rec =
     (if \<not> has_key rec (ascii ''unsolved_stage'') then
        Inr (AList.update (ascii ''unsolved_stage'') JNull rec)
      else
        let stage = dget rec (ascii ''unsolved_stage'') in
        if \<not> hashable stage then Inl TypeError
        else if stage \<notin> set UNSOLVED_STAGES then
          Inr (AList.update (ascii ''unsolved_stage'') JNull rec)
        else Inr rec)"

text \<open>\<open>str(x).strip() or None\<close>\<close>

definition strip_or_none :: "pylib \<Rightarrow> json \<Rightarrow> json" where
  "strip_or_none B x = (let s = strip (py_str B x) in if s \<noteq> [] then JStr s else JNull)"

text \<open>
  \<^verbatim>\<open>custom_label = rec.get('unsolved_custom_label')
if custom_label is not None:
    custom_label = str(custom_label).strip() or None
rec['unsolved_custom_label'] = None if rec.get('solved') else custom_label\<close>
\<close>

definition norm_label :: "pylib \<Rightarrow> pydict \<Rightarrow> pydict" where
  "norm_label B rec =
     (let custom_label = dget rec (ascii ''unsolved_custom_label'');
          custom_label = (if custom_label \<noteq> JNull then strip_or_none B custom_label
                          else custom_label)
      in AList.update (ascii ''unsolved_custom_label'')
           (if truthy (dget rec (ascii ''solved'')) then JNull else custom_label) rec)"

text \<open>
  \<^verbatim>\<open>if 'tags' not in rec or rec['tags'] is None:
    rec['tags'] = []\<close>
\<close>

definition norm_tags :: "pydict \<Rightarrow> pydict" where
  "norm_tags rec =
     (if \<not> has_key rec (ascii ''tags'') \<or> dget rec (ascii ''tags'') = JNull then
        AList.update (ascii ''tags'') (JList []) rec
      else rec)"

text \<open>
  \<^verbatim>\<open>try:
    if 'pass_count' in rec and rec['pass_count'] is not None:
        rec['pass_count'] = int(rec['pass_count'])
except Exception:
    rec['pass_count'] = None\<close>
\<close>

definition norm_pass_count :: "pylib \<Rightarrow> pydict \<Rightarrow> pydict" where
  "norm_pass_count B rec =
     (if has_key rec (ascii ''pass_count'') \<and> dget rec (ascii ''pass_count'') \<noteq> JNull then
        (case py_int B (dget rec (ascii ''pass_count'')) of
           Inr n \<Rightarrow> AList.update (ascii ''pass_count'') (JInt n) rec
         | Inl e \<Rightarrow> AList.update (ascii ''pass_count'') JNull rec)
      else rec)"

text \<open>
  \<^verbatim>\<open>assignee = rec.get('assignee')
if assignee is None and owner:
    assignee = owner
if assignee is not None:
    assignee = str(assignee).strip() or None
rec['assignee'] = assignee\<close>
\<close>

definition norm_assignee :: "pylib \<Rightarrow> json \<Rightarrow> pydict \<Rightarrow> pydict" where
  "norm_assignee B owner rec =
     (let assignee = dget rec (ascii ''assignee'');
          assignee = (if assignee = JNull \<and> truthy owner then owner else assignee);
          assignee = (if assignee \<noteq> JNull then strip_or_none B assignee else assignee)
      in AList.update (ascii ''assignee'') assignee rec)"

text \<open>
  \<^verbatim>\<open>if rec.get('solved'):
    rec['unsolved_stage'] = None
    rec['unsolved_custom_label'] = None\<close>
\<close>

definition norm_final :: "pydict \<Rightarrow> pydict" where
  "norm_final rec =
     (if truthy (dget rec (ascii ''solved'')) then
        AList.update (ascii ''unsolved_custom_label'') JNull
          (AList.update (ascii ''unsolved_stage'') JNull rec)
      else rec)"

text \<open>
  \<open>normalize_record\<close>: the copy \<open>dict(rec)\<close> is the value itself, the two \<open>pop\<close>s come
  first, then the blocks above in the order of the source.
\<close>

definition normalize_record :: "pylib \<Rightarrow> pydict \<Rightarrow> error + pydict" where
  "normalize_record B rec =
     (let rec = AList.delete (ascii ''has_solution'') rec;
          owner = dget rec (ascii ''owner'');
          rec = AList.delete (ascii ''owner'') rec;
          rec = norm_solved B rec
      in case norm_stage rec of
           Inl e \<Rightarrow> Inl e
         | Inr rec \<Rightarrow>
             Inr (norm_final (norm_assignee B owner (norm_pass_count B
                    (norm_tags (norm_label B rec))))))"


section \<open>The record store (server.py)\<close>

text \<open>
  Files are modelled by the text \<open>read_text\<close> returns and \<open>write_text\<close> receives. The
  container \<open>DATA_FILE\<close> is seen through \<open>json.loads\<close>: its text either fails to decode
  (\<open>Unparsable\<close>), or decodes to a list of objects (\<open>Parsed\<close>), and writing
  \<open>json.dumps(items, ...)\<close> leaves \<open>Parsed items\<close>. A container that decodes to something
  other than a list of objects is outside the model. The solutions directory maps a
  problem id to the text of \<open>SOLUTIONS_DIR / f"{id}.md"\<close>.
\<close>

datatype container = Unparsable pystr | Parsed "pydict list"

record store =
  data_file :: "container option"
  backup_file :: "pystr option"
  solutions :: "pystr \<rightharpoonup> pystr"

text \<open>\<open>_solution_exists\<close>, \<open>_write_solution\<close>, \<open>_delete_solution\<close>\<close>

definition solution_exists :: "(pystr \<rightharpoonup> pystr) \<Rightarrow> pystr \<Rightarrow> bool" where
  "solution_exists sols problem_id = (sols problem_id \<noteq> None)"

definition write_solution :: "pystr \<Rightarrow> pystr \<Rightarrow> (pystr \<rightharpoonup> pystr) \<Rightarrow> (pystr \<rightharpoonup> pystr)" where
  "write_solution problem_id markdown sols = sols(problem_id \<mapsto> markdown)"

definition delete_solution :: "pystr \<Rightarrow> (pystr \<rightharpoonup> pystr) \<Rightarrow> (pystr \<rightharpoonup> pystr)" where
  "delete_solution problem_id sols =
     (if solution_exists sols problem_id then sols(problem_id := None) else sols)"

definition LEGACY_KEYS :: "pystr list" where
  "LEGACY_KEYS = [ascii ''solution_markdown'', ascii ''solution_md'', ascii ''solution'']"

text \<open>
  \<^verbatim>\<open>for key in ('solution_markdown', 'solution_md', 'solution'):
    if key in rec and rec[key]:
        content = rec.pop(key); changed = True; break\<close>
  The key the loop stops at, if any.
\<close>

definition legacy_key :: "pydict \<Rightarrow> pystr option" where
  "legacy_key rec = find (\<lambda>key. has_key rec key \<and> truthy (dget rec key)) LEGACY_KEYS"

text \<open>The record after that loop.\<close>

definition drop_legacy :: "pydict \<Rightarrow> pydict" where
  "drop_legacy rec = (case legacy_key rec of None \<Rightarrow> rec | Some key \<Rightarrow> AList.delete key rec)"

text \<open>
  The body of the loop of \<open>_load\<close> for one record: extract a legacy solution into its
  side-file, drop \<open>has_solution\<close>, normalize. The state is the solutions directory and
  the flag \<open>changed\<close>.
\<close>

definition load_record ::
  "pylib \<Rightarrow> pydict \<Rightarrow> (pystr \<rightharpoonup> pystr) \<times> bool \<Rightarrow> (error + pydict) \<times> (pystr \<rightharpoonup> pystr) \<times> bool" where
  "load_record B rec st =
     (let (sols, changed) = st;
          (content, rec, changed) =
            (case legacy_key rec of
               None \<Rightarrow> (JNull, rec, changed)
             | Some key \<Rightarrow> (dget rec key, AList.delete key rec, True));
          sols = (if truthy content \<and> truthy (dget rec (ascii ''id''))
                  then write_solution (py_str B (dget rec (ascii ''id''))) (py_str B content) sols
                  else sols);
          changed = (if dget rec (ascii ''has_solution'') \<noteq> JNull then True else changed);
          rec = AList.delete (ascii ''has_solution'') rec
      in (normalize_record B rec, sols, changed))"

fun load_loop ::
  "pylib \<Rightarrow> pydict list \<Rightarrow> (pystr \<rightharpoonup> pystr) \<times> bool \<Rightarrow> pydict list
     \<Rightarrow> (error + pydict list \<times> bool) \<times> (pystr \<rightharpoonup> pystr)" where
  "load_loop B [] st normalized_items = (Inr (normalized_items, snd st), fst st)"
| "load_loop B (rec # items) st normalized_items =
     (case load_record B rec st of
        (Inl e, sols, changed) \<Rightarrow> (Inl e, sols)
      | (Inr n, sols, changed) \<Rightarrow> load_loop B items (sols, changed) (normalized_items @ [n]))"

text \<open>
  \<^verbatim>\<open>pid = rec.get('id')
if pid: rec['has_solution'] = _solution_exists(str(pid))
else:   rec['has_solution'] = False\<close>
\<close>

definition attach_has_solution :: "pylib \<Rightarrow> (pystr \<rightharpoonup> pystr) \<Rightarrow> pydict \<Rightarrow> pydict" where
  "attach_has_solution B sols rec =
     (let pid = dget rec (ascii ''id'') in
      if truthy pid
      then AList.update (ascii ''has_solution'') (JBool (solution_exists sols (py_str B pid))) rec
      else AList.update (ascii ''has_solution'') (JBool False) rec)"

text \<open>The list \<open>sanitized\<close> of \<open>_load\<close> and \<open>_save\<close>.\<close>

definition sanitized :: "pydict list \<Rightarrow> pydict list" where
  "sanitized items = map (AList.delete (ascii ''has_solution'')) items"

text \<open>
  \<open>_load\<close>. An exception leaves the side-files written so far and the container as it was.
\<close>

definition load :: "pylib \<Rightarrow> store \<Rightarrow> (error + pydict list) \<times> store" where
  "load B fs =
     (case data_file fs of
        None \<Rightarrow> (Inl FileNotFoundError, fs)
      | Some c \<Rightarrow>
          let (items, fs) =
                (case c of
                   Unparsable text \<Rightarrow>
                     ([], fs\<lparr>backup_file := Some text, data_file := Some (Parsed [])\<rparr>)
                 | Parsed items \<Rightarrow> (items, fs))
          in case load_loop B items (solutions fs, False) [] of
               (Inl e, sols) \<Rightarrow> (Inl e, fs\<lparr>solutions := sols\<rparr>)
             | (Inr (normalized_items, changed), sols) \<Rightarrow>
                 let fs = fs\<lparr>solutions := sols\<rparr>;
                     fs = (if changed
                           then fs\<lparr>data_file := Some (Parsed (sanitized normalized_items))\<rparr>
                           else fs)
                 in (Inr (map (attach_has_solution B (solutions fs)) normalized_items), fs))"

text \<open>\<open>_save\<close>\<close>

definition save :: "pydict list \<Rightarrow> store \<Rightarrow> store" where
  "save items fs = fs\<lparr>data_file := Some (Parsed (sanitized items))\<rparr>"

text \<open>
  \<open>_load_and_find_problem\<close>: the position of the first record whose id equals \<open>pid\<close>
  stands for the reference to that record which the source returns.
\<close>

fun find_problem :: "pystr \<Rightarrow> pydict list \<Rightarrow> nat option" where
  "find_problem pid [] = None"
| "find_problem pid (rec # items) =
     (if dget rec (ascii ''id'') = JStr pid then Some 0
      else map_option Suc (find_problem pid items))"

definition load_and_find_problem ::
  "pylib \<Rightarrow> pystr \<Rightarrow> store \<Rightarrow> (error + pydict list \<times> nat) \<times> store" where
  "load_and_find_problem B pid fs =
     (case load B fs of
        (Inl e, fs) \<Rightarrow> (Inl e, fs)
      | (Inr items, fs) \<Rightarrow>
          (case find_problem pid items of
             None \<Rightarrow> (Inl HTTP_404, fs)
           | Some i \<Rightarrow> (Inr (items, i), fs)))"

text \<open>\<open>s.replace("\r\n", "\n")\<close>\<close>

fun replace_crlf :: "pystr \<Rightarrow> pystr" where
  "replace_crlf (c # d # s) =
     (if c = 13 \<and> d = 10 then 10 # replace_crlf s else c # replace_crlf (d # s))"
| "replace_crlf s = s"

text \<open>
  \<open>put_solution\<close>. \<open>payload\<close> is \<open>payload.markdown\<close>, \<open>now\<close> is what
  \<open>datetime.utcnow().isoformat()\<close> returns at its one call.
\<close>

definition put_solution ::
  "pylib \<Rightarrow> pystr \<Rightarrow> pystr option \<Rightarrow> pystr \<Rightarrow> store \<Rightarrow> (error + pydict) \<times> store" where
  "put_solution B pid payload now fs =
     (case load_and_find_problem B pid fs of
        (Inl e, fs) \<Rightarrow> (Inl e, fs)
      | (Inr (items, i), fs) \<Rightarrow>
          let markdown = replace_crlf (case payload of None \<Rightarrow> [] | Some m \<Rightarrow> m);
              (has_solution, fs) =
                (if strip markdown \<noteq> []
                 then (True, fs\<lparr>solutions := write_solution pid markdown (solutions fs)\<rparr>)
                 else (False, fs\<lparr>solutions := delete_solution pid (solutions fs)\<rparr>));
              updated_at = JStr (now @ ascii ''Z'');
              problem = AList.update (ascii ''updated_at'') updated_at
                          (AList.update (ascii ''has_solution'') (JBool has_solution) (items ! i));
              fs = save (items[i := problem]) fs
          in (Inr [(ascii ''ok'', JBool True),
                   (ascii ''has_solution'', JBool has_solution),
                   (ascii ''updated_at'', updated_at)], fs))"

section \<open>Derived notions and examples\<close>

text \<open>
  What \<open>str(x).strip() or None\<close> produces: \<open>None\<close>, or a non-empty string with no white
  space at either end.
\<close>

definition clean_text :: "json \<Rightarrow> bool" where
  "clean_text v \<longleftrightarrow> v = JNull \<or> (\<exists>s. v = JStr s \<and> s \<noteq> [] \<and> strip s = s)"

text \<open>
  The shape of every record that \<open>normalize_record\<close> returns.
\<close>

definition normalized :: "pydict \<Rightarrow> bool" where
  "normalized r \<longleftrightarrow>
     map_of r (ascii ''has_solution'') = None \<and>
     map_of r (ascii ''owner'') = None \<and>
     has_key r (ascii ''solved'') \<and>
     has_key r (ascii ''unsolved_stage'') \<and>
     (dget r (ascii ''unsolved_stage'') = JNull \<or>
      dget r (ascii ''unsolved_stage'') \<in> set UNSOLVED_STAGES) \<and>
     has_key r (ascii ''unsolved_custom_label'') \<and>
     clean_text (dget r (ascii ''unsolved_custom_label'')) \<and>
     (truthy (dget r (ascii ''solved'')) \<longrightarrow>
        dget r (ascii ''unsolved_stage'') = JNull \<and>
        dget r (ascii ''unsolved_custom_label'') = JNull) \<and>
     has_key r (ascii ''tags'') \<and> dget r (ascii ''tags'') \<noteq> JNull \<and>
     (dget r (ascii ''pass_count'') = JNull \<or> (\<exists>n. dget r (ascii ''pass_count'') = JInt n)) \<and>
     has_key r (ascii ''assignee'') \<and>
     clean_text (dget r (ascii ''assignee''))"

text \<open>
  The side-file written for one record by the loop of \<open>_load\<close>, and whether that record
  sets \<open>changed\<close>.
\<close>

definition rec_sols :: "pylib \<Rightarrow> pydict \<Rightarrow> (pystr \<rightharpoonup> pystr) \<Rightarrow> (pystr \<rightharpoonup> pystr)" where
  "rec_sols B rec sols =
     (case legacy_key rec of
        None \<Rightarrow> sols
      | Some key \<Rightarrow>
          if truthy (dget rec (ascii ''id''))
          then write_solution (py_str B (dget rec (ascii ''id''))) (py_str B (dget rec key)) sols
          else sols)"

definition rec_changed :: "pydict \<Rightarrow> bool" where
  "rec_changed rec \<longleftrightarrow> legacy_key rec \<noteq> None \<or> dget rec (ascii ''has_solution'') \<noteq> JNull"

text \<open>
  One instance of the two built-ins, for evaluating examples; the examples never reach
  either function.
\<close>

definition demo_lib :: pylib where
  "demo_lib = \<lparr>repr_of = (\<lambda>v. []), int_of_str = (\<lambda>s. None)\<rparr>"

definition legacy_status_record :: pydict where
  "legacy_status_record =
     [(ascii ''id'', JStr (ascii ''p1'')),
      (ascii ''status'', JStr (ascii ''Done'')),
      (ascii ''owner'', JStr (ascii ''bob''))]"

definition legacy_status_store :: store where
  "legacy_status_store =
     \<lparr>data_file = Some (Parsed [legacy_status_record]),
      backup_file = None,
      solutions = Map.empty\<rparr>"

definition legacy_record :: pydict where
  "legacy_record =
     [(ascii ''id'', JStr (ascii ''p1'')),
      (ascii ''status'', JStr (ascii ''Done'')),
      (ascii ''owner'', JStr (ascii '' bob '')),
      (ascii ''pass_count'', JBool True),
      (ascii ''has_solution'', JBool True)]"

definition legacy_record_normalized :: pydict where
  "legacy_record_normalized =
     [(ascii ''id'', JStr (ascii ''p1'')),
      (ascii ''status'', JStr (ascii ''Done'')),
      (ascii ''pass_count'', JInt 1),
      (ascii ''solved'', JBool True),
      (ascii ''unsolved_stage'', JNull),
      (ascii ''unsolved_custom_label'', JNull),
      (ascii ''tags'', JList []),
      (ascii ''assignee'', JStr (ascii ''bob''))]"

text \<open>
  The fields that \<open>normalize_record\<close> assigns.
\<close>

definition NORMALIZED_KEYS :: "pystr list" where
  "NORMALIZED_KEYS =
     [ascii ''solved'', ascii ''unsolved_stage'', ascii ''unsolved_custom_label'',
      ascii ''tags'', ascii ''pass_count'', ascii ''assignee'']"


definition one_problem_store :: store where
  "one_problem_store =
     \<lparr>data_file = Some (Parsed [legacy_record_normalized]),
      backup_file = None,
      solutions = [ascii ''p1'' \<mapsto> ascii ''old notes'']\<rparr>"

definition legacy_status_normalized :: pydict where
  "legacy_status_normalized =
     [(ascii ''id'', JStr (ascii ''p1'')),
      (ascii ''status'', JStr (ascii ''Done'')),
      (ascii ''solved'', JBool True),
      (ascii ''unsolved_stage'', JNull),
      (ascii ''unsolved_custom_label'', JNull),
      (ascii ''tags'', JList []),
      (ascii ''assignee'', JStr (ascii ''bob''))]"

definition legacy_solution_store :: store where
  "legacy_solution_store =
     \<lparr>data_file = Some (Parsed
        [[(ascii ''id'', JStr (ascii ''p1'')),
          (ascii ''status'', JStr (ascii ''Done'')),
          (ascii ''solution_markdown'', JStr (ascii ''# notes'')),
          (ascii ''owner'', JStr (ascii ''bob''))]]),
      backup_file = None,
      solutions = Map.empty\<rparr>"

definition legacy_solution_store_loaded :: store where
  "legacy_solution_store_loaded =
     \<lparr>data_file = Some (Parsed [legacy_status_normalized]),
      backup_file = None,
      solutions = [ascii ''p1'' \<mapsto> ascii ''# notes'']\<rparr>"

definition anonymous_solution_store :: store where
  "anonymous_solution_store =
     \<lparr>data_file = Some (Parsed
        [[(ascii ''title'', JStr (ascii ''two sum'')),
          (ascii ''solution'', JStr (ascii ''use a hash map''))]]),
      backup_file = None,
      solutions = Map.empty\<rparr>"


section \<open>Properties\<close>

lemma ascii_eq_iff [simp]: "ascii a = ascii b \<longleftrightarrow> a = b"
  unfolding ascii_def by (simp add: inj_on_def)

lemma lstrip_rstrip: "lstrip (rstrip (lstrip s)) = rstrip (lstrip s)"
proof -
  define t where "t = dropWhile isspace s"
  define u where "u = rev (dropWhile isspace (rev t))"
  have pre: "t = u @ rev (takeWhile isspace (rev t))"
  proof -
    have "rev (takeWhile isspace (rev t) @ dropWhile isspace (rev t)) = rev (rev t)"
      by (simp only: takeWhile_dropWhile_id)
    then have "rev (dropWhile isspace (rev t)) @ rev (takeWhile isspace (rev t)) = t"
      by (simp only: rev_append rev_rev_ident)
    then show ?thesis by (simp only: u_def)
  qed
  have "dropWhile isspace u = u"
  proof (cases u)
    case Nil
    then show ?thesis by simp
  next
    case (Cons a as)
    then have "hd t = a" using pre by (metis append_Cons list.sel(1))
    moreover have "t \<noteq> []" using pre Cons by auto
    ultimately have "\<not> isspace a" unfolding t_def using hd_dropWhile by metis
    then show ?thesis using Cons by simp
  qed
  then show ?thesis by (simp add: lstrip_def rstrip_def t_def u_def)
qed

lemma rstrip_idem: "rstrip (rstrip s) = rstrip s"
  by (simp add: rstrip_def)

lemma strip_idem: "strip (strip s) = strip s"
  by (simp add: strip_def lstrip_rstrip rstrip_idem)

lemma has_key_update: "has_key (AList.update k v d) k' \<longleftrightarrow> k' = k \<or> has_key d k'"
  by (simp add: has_key_def update_conv')

lemma has_key_delete: "has_key (AList.delete k d) k' \<longleftrightarrow> k' \<noteq> k \<and> has_key d k'"
  by (simp add: has_key_def delete_conv')

lemma dget_update: "dget (AList.update k v d) k' = (if k' = k then v else dget d k')"
  by (simp add: dget_def update_conv')

lemma dget_delete: "dget (AList.delete k d) k' = (if k' = k then JNull else dget d k')"
  by (simp add: dget_def delete_conv')

lemma delete_absent: "map_of d k = None \<Longrightarrow> AList.delete k d = d"
  by (simp add: map_of_eq_None_iff)

lemma map_of_norm_solved:
  "map_of (norm_solved B r) k =
     (if k = ascii ''solved'' \<and> \<not> has_key r (ascii ''solved'')
      then Some (JBool (lower (py_str B (py_or (dget r (ascii ''status'')) (JStr []))) = ascii ''done''))
      else map_of r k)"
  by (simp add: norm_solved_def update_conv' Let_def)

lemma map_of_norm_stage:
  assumes "norm_stage r = Inr r'"
  shows "map_of r' k =
     (if k = ascii ''unsolved_stage''
      then Some (if dget r (ascii ''unsolved_stage'') \<in> set UNSOLVED_STAGES
                 then dget r (ascii ''unsolved_stage'') else JNull)
      else map_of r k)"
  using assms
  by (auto simp: norm_stage_def update_conv' Let_def has_key_def dget_def UNSOLVED_STAGES_def
      split: if_splits option.splits)

lemma map_of_norm_label:
  "map_of (norm_label B r) k =
     (if k = ascii ''unsolved_custom_label''
      then Some (if truthy (dget r (ascii ''solved'')) then JNull
                 else if dget r (ascii ''unsolved_custom_label'') \<noteq> JNull
                 then strip_or_none B (dget r (ascii ''unsolved_custom_label'')) else JNull)
      else map_of r k)"
  by (simp add: norm_label_def update_conv' Let_def)

lemma map_of_norm_tags:
  "map_of (norm_tags r) k =
     (if k = ascii ''tags'' \<and> (\<not> has_key r (ascii ''tags'') \<or> dget r (ascii ''tags'') = JNull)
      then Some (JList []) else map_of r k)"
  by (auto simp: norm_tags_def update_conv')

lemma map_of_norm_pass_count:
  "map_of (norm_pass_count B r) k =
     (if k = ascii ''pass_count'' \<and> has_key r (ascii ''pass_count'')
          \<and> dget r (ascii ''pass_count'') \<noteq> JNull
      then Some (case py_int B (dget r (ascii ''pass_count'')) of Inr n \<Rightarrow> JInt n | Inl e \<Rightarrow> JNull)
      else map_of r k)"
  by (simp add: norm_pass_count_def update_conv' split: sum.splits)

lemma map_of_norm_assignee:
  "map_of (norm_assignee B owner r) k =
     (if k = ascii ''assignee''
      then Some (let a = (if dget r (ascii ''assignee'') = JNull \<and> truthy owner then owner
                          else dget r (ascii ''assignee''))
                 in if a \<noteq> JNull then strip_or_none B a else a)
      else map_of r k)"
  by (simp add: norm_assignee_def update_conv' Let_def)

lemma map_of_norm_final:
  "map_of (norm_final r) k =
     (if truthy (dget r (ascii ''solved''))
         \<and> (k = ascii ''unsolved_stage'' \<or> k = ascii ''unsolved_custom_label'')
      then Some JNull else map_of r k)"
  by (simp add: norm_final_def update_conv')

lemma clean_text_strip_or_none: "clean_text (strip_or_none B x)"
  by (simp add: clean_text_def strip_or_none_def Let_def strip_idem)

lemma clean_text_fix: "clean_text v \<Longrightarrow> v \<noteq> JNull \<Longrightarrow> strip_or_none B v = v"
  by (auto simp: clean_text_def strip_or_none_def Let_def py_str_def)

lemmas map_of_norm =
  map_of_norm_solved map_of_norm_label map_of_norm_tags map_of_norm_pass_count
  map_of_norm_assignee map_of_norm_final

lemma update_same: "has_key d k \<Longrightarrow> dget d k = v \<Longrightarrow> AList.update k v d = d"
  by (auto simp: has_key_def dget_def intro: update_triv)

lemma normalized_fix:
  assumes "normalized r"
  shows "normalize_record B r = Inr r"
proof -
  note n = assms [unfolded normalized_def]
  have d1: "AList.delete (ascii ''has_solution'') r = r"
    using n by (simp add: delete_absent)
  have d2: "AList.delete (ascii ''owner'') r = r"
    using n by (simp add: delete_absent)
  have ow: "dget r (ascii ''owner'') = JNull"
    using n by (simp add: dget_def)
  have s1: "norm_solved B r = r"
    using n by (simp add: norm_solved_def)
  have s2: "norm_stage r = Inr r"
    using n by (auto simp: norm_stage_def Let_def UNSOLVED_STAGES_def update_same)
  have s3: "norm_label B r = r"
    using n by (auto simp: norm_label_def Let_def clean_text_fix update_same)
  have s4: "norm_tags r = r"
    using n by (simp add: norm_tags_def)
  have s5: "norm_pass_count B r = r"
    using n by (auto simp: norm_pass_count_def py_int_def update_same)
  have s6: "norm_assignee B JNull r = r"
    using n by (auto simp: norm_assignee_def Let_def clean_text_fix update_same)
  have s7: "norm_final r = r"
    using n by (auto simp: norm_final_def update_same)
  show ?thesis
    by (simp add: normalize_record_def d1 d2 ow s1 s2 s3 s4 s5 s6 s7)
qed

lemma normalize_record_Inr:
  assumes "normalize_record B r = Inr r'"
  obtains r4 where
    "norm_stage (norm_solved B (AList.delete (ascii ''owner'')
        (AList.delete (ascii ''has_solution'') r))) = Inr r4"
    "r' = norm_final (norm_assignee B (dget (AList.delete (ascii ''has_solution'') r) (ascii ''owner''))
            (norm_pass_count B (norm_tags (norm_label B r4))))"
  using assms by (auto simp: normalize_record_def Let_def split: sum.splits)

lemma stage_in_hashable: "v \<in> set UNSOLVED_STAGES \<Longrightarrow> v \<noteq> JNull"
  by (auto simp: UNSOLVED_STAGES_def)

lemma normalize_normalized:
  assumes "normalize_record B r = Inr r'"
  shows "normalized r'"
proof -
  from assms obtain r4 where
    st: "norm_stage (norm_solved B (AList.delete (ascii ''owner'')
        (AList.delete (ascii ''has_solution'') r))) = Inr r4"
    and r': "r' = norm_final (norm_assignee B (dget (AList.delete (ascii ''has_solution'') r) (ascii ''owner''))
            (norm_pass_count B (norm_tags (norm_label B r4))))"
    by (rule normalize_record_Inr)
  note m4 = map_of_norm_stage [OF st]
  have k1: "map_of r' (ascii ''has_solution'') = None"
    by (simp add: r' map_of_norm m4 delete_conv' has_key_def dget_def)
  have k2: "map_of r' (ascii ''owner'') = None"
    by (simp add: r' map_of_norm m4 delete_conv' has_key_def dget_def)
  have k3: "has_key r' (ascii ''solved'')"
    by (simp add: r' map_of_norm m4 delete_conv' has_key_def dget_def)
  have k4: "has_key r' (ascii ''unsolved_stage'')"
    by (simp add: r' map_of_norm m4 delete_conv' has_key_def dget_def)
  have k5: "dget r' (ascii ''unsolved_stage'') = JNull \<or>
      dget r' (ascii ''unsolved_stage'') \<in> set UNSOLVED_STAGES"
    by (simp add: r' map_of_norm m4 delete_conv' has_key_def dget_def)
  have k6: "has_key r' (ascii ''unsolved_custom_label'')"
    by (simp add: r' map_of_norm m4 delete_conv' has_key_def dget_def)
  have k7: "clean_text (dget r' (ascii ''unsolved_custom_label''))"
    by (simp add: r' map_of_norm m4 delete_conv' has_key_def dget_def clean_text_strip_or_none
        clean_text_def [of JNull])
  have k8: "truthy (dget r' (ascii ''solved'')) \<longrightarrow>
        dget r' (ascii ''unsolved_stage'') = JNull \<and>
        dget r' (ascii ''unsolved_custom_label'') = JNull"
    by (simp add: r' map_of_norm m4 delete_conv' has_key_def dget_def)
  have k9: "has_key r' (ascii ''tags'') \<and> dget r' (ascii ''tags'') \<noteq> JNull"
    by (auto simp add: r' map_of_norm m4 delete_conv' has_key_def dget_def split: option.splits)
  have k10: "dget r' (ascii ''pass_count'') = JNull \<or> (\<exists>n. dget r' (ascii ''pass_count'') = JInt n)"
    by (auto simp add: r' map_of_norm m4 delete_conv' has_key_def dget_def split: option.splits sum.splits)
  have k11: "has_key r' (ascii ''assignee'')"
    by (simp add: r' map_of_norm m4 delete_conv' has_key_def dget_def)
  have k12: "clean_text (dget r' (ascii ''assignee''))"
    by (simp add: r' map_of_norm m4 delete_conv' has_key_def dget_def clean_text_strip_or_none
        clean_text_def [of JNull] Let_def)
  show ?thesis
    unfolding normalized_def using k1 k2 k3 k4 k5 k6 k7 k8 k9 k10 k11 k12 by blast
qed

lemma legacy_key_Some:
  assumes "legacy_key rec = Some key"
  shows "key \<in> set LEGACY_KEYS" "has_key rec key" "truthy (dget rec key)"
  using assms unfolding legacy_key_def by (auto simp: find_Some_iff)

lemma legacy_key_neq:
  assumes "key \<in> set LEGACY_KEYS"
  shows "key \<noteq> ascii ''id''" "key \<noteq> ascii ''has_solution''"
  using assms by (auto simp: LEGACY_KEYS_def)

lemma normalize_record_delete_has_solution:
  "normalize_record B (AList.delete (ascii ''has_solution'') rec) = normalize_record B rec"
  by (simp add: normalize_record_def delete_idem)

lemma load_record_eq:
  "load_record B rec (sols, ch) =
     (normalize_record B (drop_legacy rec), rec_sols B rec sols, ch \<or> rec_changed rec)"
proof (cases "legacy_key rec")
  case None
  then show ?thesis
    by (simp add: load_record_def drop_legacy_def rec_sols_def rec_changed_def
        normalize_record_delete_has_solution)
next
  case (Some key)
  note k = legacy_key_Some [OF Some] legacy_key_neq [OF legacy_key_Some(1) [OF Some]]
  show ?thesis
    using k
    by (simp add: load_record_def drop_legacy_def rec_sols_def rec_changed_def Some
        normalize_record_delete_has_solution dget_delete)
qed

lemma load_loop_Inr:
  assumes "load_loop B items (sols, ch) acc = (Inr (ns, ch'), sols')"
  shows "\<exists>S. ns = acc @ S
           \<and> list_all2 (\<lambda>rec n. normalize_record B (drop_legacy rec) = Inr n) items S
           \<and> ch' = (ch \<or> (\<exists>rec\<in>set items. rec_changed rec))
           \<and> sols' = fold (rec_sols B) items sols"
  using assms
proof (induction items arbitrary: sols ch acc)
  case Nil
  then show ?case by simp
next
  case (Cons rec items)
  from Cons.prems obtain n where
    n: "normalize_record B (drop_legacy rec) = Inr n" and
    rest: "load_loop B items (rec_sols B rec sols, ch \<or> rec_changed rec) (acc @ [n])
             = (Inr (ns, ch'), sols')"
    by (auto simp: load_record_eq split: sum.splits)
  from Cons.IH [OF rest] obtain S where
    S: "ns = (acc @ [n]) @ S"
       "list_all2 (\<lambda>rec n. normalize_record B (drop_legacy rec) = Inr n) items S"
       "ch' = ((ch \<or> rec_changed rec) \<or> (\<exists>rec\<in>set items. rec_changed rec))"
       "sols' = fold (rec_sols B) items (rec_sols B rec sols)"
    by blast
  show ?case
    by (rule exI [of _ "n # S"]) (use S n in auto)
qed

lemma load_loop_normalized:
  assumes "\<forall>n\<in>set S. normalized n \<and> legacy_key n = None"
  shows "load_loop B S (sols, False) acc = (Inr (acc @ S, False), sols)"
  using assms
proof (induction S arbitrary: acc)
  case Nil
  then show ?case by simp
next
  case (Cons n S)
  then have n: "normalized n" "legacy_key n = None" by auto
  have hs: "dget n (ascii ''has_solution'') = JNull"
    using n(1) by (simp add: normalized_def dget_def)
  have "load_record B n (sols, False) = (Inr n, sols, False)"
    by (simp add: load_record_eq drop_legacy_def n rec_sols_def rec_changed_def hs
        normalized_fix)
  then show ?case using Cons by simp
qed

lemma sanitized_normalized:
  "\<forall>n\<in>set S. normalized n \<Longrightarrow> sanitized S = S"
  by (induction S) (auto simp: sanitized_def normalized_def delete_absent)


lemma dropWhile_Nil_all: "dropWhile P s = [] \<longleftrightarrow> (\<forall>c\<in>set s. P c)"
  by (simp add: dropWhile_eq_Nil_conv)

lemma all_dropWhile_iff: "(\<forall>c\<in>set (dropWhile P s). P c) \<longleftrightarrow> (\<forall>c\<in>set s. P c)"
proof
  assume a: "\<forall>c\<in>set (dropWhile P s). P c"
  have "dropWhile P s = []"
  proof (rule ccontr)
    assume ne: "dropWhile P s \<noteq> []"
    then have "\<not> P (hd (dropWhile P s))" by (rule hd_dropWhile)
    moreover have "hd (dropWhile P s) \<in> set (dropWhile P s)"
      using ne by simp
    ultimately show False using a by blast
  qed
  then show "\<forall>c\<in>set s. P c" by (simp only: dropWhile_Nil_all)
next
  assume "\<forall>c\<in>set s. P c"
  then show "\<forall>c\<in>set (dropWhile P s). P c"
    using set_dropWhileD by fastforce
qed

lemma strip_Nil_iff: "strip s = [] \<longleftrightarrow> (\<forall>c\<in>set s. isspace c)"
proof -
  have "strip s = [] \<longleftrightarrow> (\<forall>c\<in>set (dropWhile isspace s). isspace c)"
    by (simp add: strip_def rstrip_def lstrip_def dropWhile_Nil_all)
  then show ?thesis by (simp only: all_dropWhile_iff)
qed

lemma replace_crlf_all_space:
  "(\<forall>c\<in>set (replace_crlf s). isspace c) \<longleftrightarrow> (\<forall>c\<in>set s. isspace c)"
  by (induction s rule: replace_crlf.induct) (auto simp: isspace_def)

lemma find_problem_Some:
  "find_problem pid items = Some i \<Longrightarrow> i < length items \<and> dget (items ! i) (ascii ''id'') = JStr pid"
  by (induction items arbitrary: i) (auto split: if_splits)

text \<open>
  Claim C8. For a problem that \<open>_load_and_find_problem\<close> finds, \<open>put_solution\<close> returns
  normally; with no text, or text of white space only, the side-file is absent afterwards
  and the response has \<open>has_solution\<close> false; with any other text the side-file holds that
  text (line ends normalized) and the response has \<open>has_solution\<close> true.
\<close>

theorem put_solution_side_file:
  assumes "load B fs = (Inr items, fs1)" and "find_problem pid items = Some i"
  shows "\<exists>resp fs'. put_solution B pid payload now fs = (Inr resp, fs') \<and>
           (case payload of
              None \<Rightarrow> solutions fs' pid = None \<and> dget resp (ascii ''has_solution'') = JBool False
            | Some m \<Rightarrow>
                if \<forall>c\<in>set m. isspace c
                then solutions fs' pid = None \<and> dget resp (ascii ''has_solution'') = JBool False
                else solutions fs' pid = Some (replace_crlf m)
                   \<and> dget resp (ascii ''has_solution'') = JBool True)"
proof (cases payload)
  case None
  then show ?thesis
    using assms
    by (simp add: put_solution_def load_and_find_problem_def strip_def rstrip_def lstrip_def
        save_def delete_solution_def solution_exists_def dget_def Let_def)
next
  case (Some m)
  show ?thesis
  proof (cases "\<forall>c\<in>set m. isspace c")
    case True
    then have "strip (replace_crlf m) = []"
      by (simp add: strip_Nil_iff replace_crlf_all_space)
    then show ?thesis
      using assms Some True
      by (simp add: put_solution_def load_and_find_problem_def
          save_def delete_solution_def solution_exists_def dget_def Let_def)
  next
    case False
    then have "strip (replace_crlf m) \<noteq> []"
      by (simp add: strip_Nil_iff replace_crlf_all_space)
    then show ?thesis
      using assms Some False
      by (simp add: put_solution_def load_and_find_problem_def
          save_def write_solution_def dget_def Let_def)
  qed
qed

lemma legacy_record_eval:
  "normalize_record demo_lib legacy_record = Inr legacy_record_normalized"
  by code_simp

text \<open>
  Claim C1. \<open>normalize_record\<close> is idempotent: running it on its own output returns that
  output again, for every record and every behaviour of the two built-ins. Where the first
  run raises (\<open>TypeError\<close>, for an unhashable \<open>unsolved_stage\<close>) there is no output to run it
  on, and the composition raises the same error.
\<close>

theorem normalize_record_idempotent:
  "(case normalize_record B r of Inl e \<Rightarrow> Inl e | Inr r' \<Rightarrow> normalize_record B r')
     = normalize_record B r"
proof (cases "normalize_record B r")
  case (Inl e)
  then show ?thesis by simp
next
  case (Inr r')
  then show ?thesis by (simp add: normalized_fix [OF normalize_normalized [OF Inr]])
qed

text \<open>
  An instance of C1 on a legacy record with \<open>status\<close>, \<open>owner\<close> and a stored \<open>has_solution\<close>.
\<close>

theorem normalize_record_idempotent_witness:
  "normalize_record demo_lib legacy_record = Inr legacy_record_normalized
   \<and> normalize_record demo_lib legacy_record_normalized = Inr legacy_record_normalized"
  using normalize_record_idempotent [of demo_lib legacy_record]
  by (simp add: legacy_record_eval)

lemma normalize_record_other_key:
  assumes "normalize_record B r = Inr r'"
    and "k \<noteq> ascii ''owner''" and "k \<noteq> ascii ''has_solution''"
    and "k \<notin> set NORMALIZED_KEYS"
  shows "map_of r' k = map_of r k"
proof -
  from assms(1) obtain r4 where
    st: "norm_stage (norm_solved B (AList.delete (ascii ''owner'')
        (AList.delete (ascii ''has_solution'') r))) = Inr r4"
    and r': "r' = norm_final (norm_assignee B (dget (AList.delete (ascii ''has_solution'') r) (ascii ''owner''))
            (norm_pass_count B (norm_tags (norm_label B r4))))"
    by (rule normalize_record_Inr)
  show ?thesis
    using assms(2-)
    by (simp add: r' map_of_norm map_of_norm_stage [OF st] delete_conv' NORMALIZED_KEYS_def)
qed

lemma normalize_record_keeps_key:
  assumes "normalize_record B r = Inr r'"
    and "has_key r k" and "k \<noteq> ascii ''owner''" and "k \<noteq> ascii ''has_solution''"
  shows "has_key r' k"
proof -
  from assms(1) obtain r4 where
    st: "norm_stage (norm_solved B (AList.delete (ascii ''owner'')
        (AList.delete (ascii ''has_solution'') r))) = Inr r4"
    and r': "r' = norm_final (norm_assignee B (dget (AList.delete (ascii ''has_solution'') r) (ascii ''owner''))
            (norm_pass_count B (norm_tags (norm_label B r4))))"
    by (rule normalize_record_Inr)
  show ?thesis
    using assms(2-)
    by (simp add: r' map_of_norm map_of_norm_stage [OF st] delete_conv' has_key_def)
qed

text \<open>
  Claim C10. \<open>normalize_record\<close> removes no key other than \<open>owner\<close> and \<open>has_solution\<close>, and
  every key outside those two and the six normalized fields keeps its value; in particular
  the legacy \<open>status\<close> stays in the record.
\<close>

theorem normalize_record_frame:
  assumes "normalize_record B r = Inr r'"
  shows "(\<forall>k. has_key r k \<and> k \<noteq> ascii ''owner'' \<and> k \<noteq> ascii ''has_solution'' \<longrightarrow> has_key r' k)
       \<and> (\<forall>k. k \<noteq> ascii ''owner'' \<and> k \<noteq> ascii ''has_solution'' \<and> k \<notin> set NORMALIZED_KEYS
              \<longrightarrow> map_of r' k = map_of r k)
       \<and> map_of r' (ascii ''status'') = map_of r (ascii ''status'')
       \<and> \<not> has_key r' (ascii ''owner'') \<and> \<not> has_key r' (ascii ''has_solution'')"
proof -
  have n: "normalized r'" using assms by (rule normalize_normalized)
  have "map_of r' (ascii ''status'') = map_of r (ascii ''status'')"
    by (rule normalize_record_other_key [OF assms]) (simp_all add: NORMALIZED_KEYS_def)
  then show ?thesis
    using normalize_record_keeps_key [OF assms] normalize_record_other_key [OF assms] n
    by (simp add: normalized_def has_key_def)
qed

text \<open>
  An instance of C10: \<open>status\<close> and \<open>id\<close> survive, \<open>owner\<close> is gone.
\<close>

theorem normalize_record_frame_witness:
  "normalize_record demo_lib legacy_record = Inr legacy_record_normalized
   \<and> has_key legacy_record (ascii ''status'')
   \<and> map_of legacy_record_normalized (ascii ''status'') = Some (JStr (ascii ''Done''))
   \<and> has_key legacy_record_normalized (ascii ''id'')
   \<and> \<not> has_key legacy_record_normalized (ascii ''owner'')"
proof -
  have e: "normalize_record demo_lib legacy_record = Inr legacy_record_normalized"
    by (rule legacy_record_eval)
  have s: "has_key legacy_record (ascii ''status'')" "has_key legacy_record (ascii ''id'')"
    "map_of legacy_record (ascii ''status'') = Some (JStr (ascii ''Done''))"
    by (simp_all add: legacy_record_def has_key_def)
  show ?thesis
    using normalize_record_frame [OF e] e s by simp
qed


lemmas eval_defs =
  load_def load_record_def legacy_key_def LEGACY_KEYS_def
  has_key_def dget_def normalize_record_def norm_solved_def norm_stage_def norm_label_def
  norm_tags_def norm_pass_count_def norm_assignee_def norm_final_def py_or_def py_str_def
  py_int_def strip_or_none_def strip_def lstrip_def rstrip_def isspace_def
  lower_def lower_char_def attach_has_solution_def solution_exists_def ascii_def AList.delete_eq
  UNSOLVED_STAGES_def sanitized_def write_solution_def

lemma one_problem_store_load:
  "load demo_lib one_problem_store =
     (Inr [legacy_record_normalized @ [(ascii ''has_solution'', JBool True)]], one_problem_store)"
  by (simp add: one_problem_store_def legacy_record_normalized_def eval_defs)

text \<open>
  An instance of C8: a blank text removes an existing side-file, a non-blank text replaces
  it.
\<close>

theorem put_solution_side_file_witness:
  "solutions (snd (put_solution demo_lib (ascii ''p1'') (Some [32, 13, 10, 9]) (ascii ''2025-01-01T00:00:00'')
       one_problem_store)) (ascii ''p1'') = None
   \<and> solutions (snd (put_solution demo_lib (ascii ''p1'') (Some (ascii ''# notes'')) (ascii ''2025-01-01T00:00:00'')
       one_problem_store)) (ascii ''p1'') = Some (ascii ''# notes'')"
proof -
  have f: "find_problem (ascii ''p1'')
             [legacy_record_normalized @ [(ascii ''has_solution'', JBool True)]] = Some 0"
    by (simp add: legacy_record_normalized_def dget_def)
  have a: "\<forall>c\<in>set [32, 13, 10, 9::nat]. isspace c"
    by (simp add: isspace_def)
  have b: "\<not> (\<forall>c\<in>set (ascii ''# notes''). isspace c)"
    by (simp add: isspace_def ascii_def)
  have c: "replace_crlf (ascii ''# notes'') = ascii ''# notes''"
    by (simp add: ascii_def)
  from put_solution_side_file [OF one_problem_store_load f, of "Some [32, 13, 10, 9]" "ascii ''2025-01-01T00:00:00''"] a
  have 1: "solutions (snd (put_solution demo_lib (ascii ''p1'') (Some [32, 13, 10, 9]) (ascii ''2025-01-01T00:00:00'')
       one_problem_store)) (ascii ''p1'') = None"
    by auto
  from put_solution_side_file [OF one_problem_store_load f, of "Some (ascii ''# notes'')" "ascii ''2025-01-01T00:00:00''"] b c
  have 2: "solutions (snd (put_solution demo_lib (ascii ''p1'') (Some (ascii ''# notes'')) (ascii ''2025-01-01T00:00:00'')
       one_problem_store)) (ascii ''p1'') = Some (ascii ''# notes'')"
    by auto
  from 1 2 show ?thesis by simp
qed

lemma fold_rec_sols_unchanged:
  "\<forall>rec\<in>set items. legacy_key rec = None \<Longrightarrow> fold (rec_sols B) items sols = sols"
  by (induction items arbitrary: sols) (auto simp: rec_sols_def)

lemma list_all2_normalized:
  "list_all2 (\<lambda>rec n. normalize_record B (f rec) = Inr n) items S \<Longrightarrow> \<forall>n\<in>set S. normalized n"
  by (induction items S rule: list_all2_induct) (auto intro: normalize_normalized)

lemma load_Parsed:
  assumes "data_file fs = Some (Parsed items)" and "load B fs = (Inr out, fs')"
  obtains S where
    "list_all2 (\<lambda>rec n. normalize_record B (drop_legacy rec) = Inr n) items S"
    "\<forall>n\<in>set S. normalized n"
    "out = map (attach_has_solution B (fold (rec_sols B) items (solutions fs))) S"
    "fs' = (if \<exists>rec\<in>set items. rec_changed rec
            then fs\<lparr>solutions := fold (rec_sols B) items (solutions fs),
                    data_file := Some (Parsed S)\<rparr>
            else fs\<lparr>solutions := fold (rec_sols B) items (solutions fs)\<rparr>)"
proof -
  from assms obtain ns ch sols where
    ll: "load_loop B items (solutions fs, False) [] = (Inr (ns, ch), sols)"
    and out: "out = map (attach_has_solution B sols) ns"
    and fs': "fs' = (if ch then fs\<lparr>solutions := sols, data_file := Some (Parsed (sanitized ns))\<rparr>
                     else fs\<lparr>solutions := sols\<rparr>)"
    by (auto simp: load_def Let_def split: prod.splits sum.splits if_splits)
  from load_loop_Inr [OF ll] have
    la: "list_all2 (\<lambda>rec n. normalize_record B (drop_legacy rec) = Inr n) items ns"
    and ch: "ch = (\<exists>rec\<in>set items. rec_changed rec)"
    and sols: "sols = fold (rec_sols B) items (solutions fs)"
    by auto
  have nn: "\<forall>n\<in>set ns. normalized n" using la by (rule list_all2_normalized)
  then have "sanitized ns = ns" by (rule sanitized_normalized)
  with that [OF la nn] out fs' ch sols show thesis by simp
qed

text \<open>
  Claim C2, amended. When \<open>_load\<close> returns, the container is rewritten with the normalized
  records exactly when some record held a non-empty legacy solution field or a stored
  non-null \<open>has_solution\<close>; otherwise the store is left as it was. In both cases, when no
  record of the resulting container holds a further non-empty legacy solution field, a
  second \<open>_load\<close> returns the same records and leaves the store, hence the text of the
  container, unchanged.
\<close>

theorem load_rewrites_container:
  assumes "data_file fs = Some (Parsed items)" and "load B fs = (Inr out, fs')"
  shows "(if \<exists>rec\<in>set items. legacy_key rec \<noteq> None \<or> dget rec (ascii ''has_solution'') \<noteq> JNull
          then \<exists>S. data_file fs' = Some (Parsed S)
                 \<and> list_all2 (\<lambda>rec n. normalize_record B (drop_legacy rec) = Inr n) items S
          else fs' = fs)
       \<and> (\<forall>S. data_file fs' = Some (Parsed S) \<and> (\<forall>n\<in>set S. legacy_key n = None)
              \<longrightarrow> load B fs' = (Inr out, fs'))"
proof -
  from assms obtain S where
    la: "list_all2 (\<lambda>rec n. normalize_record B (drop_legacy rec) = Inr n) items S"
    and nn: "\<forall>n\<in>set S. normalized n"
    and out: "out = map (attach_has_solution B (fold (rec_sols B) items (solutions fs))) S"
    and fs': "fs' = (if \<exists>rec\<in>set items. rec_changed rec
            then fs\<lparr>solutions := fold (rec_sols B) items (solutions fs),
                    data_file := Some (Parsed S)\<rparr>
            else fs\<lparr>solutions := fold (rec_sols B) items (solutions fs)\<rparr>)"
    by (rule load_Parsed)
  show ?thesis
  proof (cases "\<exists>rec\<in>set items. rec_changed rec")
    case True
    then have fs1: "fs' = fs\<lparr>solutions := fold (rec_sols B) items (solutions fs),
                    data_file := Some (Parsed S)\<rparr>"
      using fs' by simp
    have second: "load B fs' = (Inr out, fs')" if "\<forall>n\<in>set S. legacy_key n = None"
    proof -
      from nn that have "\<forall>n\<in>set S. normalized n \<and> legacy_key n = None" by blast
      from load_loop_normalized [OF this, of B "fold (rec_sols B) items (solutions fs)" "[]"]
      show ?thesis
        by (simp add: load_def fs1 out sanitized_normalized [OF nn])
    qed
    show ?thesis
      using True la second by (auto simp: rec_changed_def fs1)
  next
    case False
    then have "\<forall>rec\<in>set items. legacy_key rec = None" by (auto simp: rec_changed_def)
    then have "fold (rec_sols B) items (solutions fs) = solutions fs"
      by (rule fold_rec_sols_unchanged)
    with False fs' have "fs' = fs" by simp
    then show ?thesis using False assms(2) by (auto simp: rec_changed_def)
  qed
qed

text \<open>
  Claim C2 fails as stated. The record below changes shape during the migration pass
  (\<open>solved\<close> is defaulted from the legacy \<open>status\<close>, \<open>owner\<close> is moved to \<open>assignee\<close> and
  dropped), and \<open>_load\<close> returns the normalized record, but the container still holds the
  raw record afterwards: \<open>changed\<close> is set only by the legacy solution loop and by a stored
  \<open>has_solution\<close>.
\<close>

theorem load_no_rewrite_counterexample:
  "normalize_record demo_lib legacy_status_record = Inr legacy_status_normalized
   \<and> legacy_status_normalized \<noteq> legacy_status_record
   \<and> data_file legacy_status_store = Some (Parsed [legacy_status_record])
   \<and> fst (load demo_lib legacy_status_store)
       = Inr [legacy_status_normalized @ [(ascii ''has_solution'', JBool False)]]
   \<and> data_file (snd (load demo_lib legacy_status_store)) = Some (Parsed [legacy_status_record])"
  by (simp add: legacy_status_store_def legacy_status_record_def legacy_status_normalized_def
      eval_defs)

text \<open>
  An instance of the amended C2, the example of the specification: the first load writes
  the side-file and the normalized container, the second load changes nothing.
\<close>

theorem load_rewrites_container_witness:
  "load demo_lib legacy_solution_store
     = (Inr [legacy_status_normalized @ [(ascii ''has_solution'', JBool True)]],
        legacy_solution_store_loaded)
   \<and> load demo_lib legacy_solution_store_loaded
     = (Inr [legacy_status_normalized @ [(ascii ''has_solution'', JBool True)]],
        legacy_solution_store_loaded)"
proof -
  have d: "data_file legacy_solution_store = Some (Parsed
        [[(ascii ''id'', JStr (ascii ''p1'')),
          (ascii ''status'', JStr (ascii ''Done'')),
          (ascii ''solution_markdown'', JStr (ascii ''# notes'')),
          (ascii ''owner'', JStr (ascii ''bob''))]])"
    by (simp add: legacy_solution_store_def)
  have l: "load demo_lib legacy_solution_store
     = (Inr [legacy_status_normalized @ [(ascii ''has_solution'', JBool True)]],
        legacy_solution_store_loaded)"
    by (simp add: legacy_solution_store_def legacy_solution_store_loaded_def
        legacy_status_normalized_def eval_defs)
  have k: "\<forall>n\<in>set [legacy_status_normalized]. legacy_key n = None"
    by (simp add: legacy_status_normalized_def legacy_key_def LEGACY_KEYS_def has_key_def)
  have p: "data_file legacy_solution_store_loaded = Some (Parsed [legacy_status_normalized])"
    by (simp add: legacy_solution_store_loaded_def)
  from load_rewrites_container [OF d l] p k
  have "load demo_lib legacy_solution_store_loaded
     = (Inr [legacy_status_normalized @ [(ascii ''has_solution'', JBool True)]],
        legacy_solution_store_loaded)"
    by blast
  with l show ?thesis by simp
qed

lemma drop_legacy_no_key:
  assumes "legacy_key rec = Some key" and "normalize_record B (drop_legacy rec) = Inr n"
  shows "\<not> has_key n key"
proof -
  have k: "key \<in> set LEGACY_KEYS" using assms(1) by (rule legacy_key_Some)
  then have "key \<noteq> ascii ''owner''" "key \<noteq> ascii ''has_solution''" "key \<notin> set NORMALIZED_KEYS"
    by (auto simp: LEGACY_KEYS_def NORMALIZED_KEYS_def)
  from normalize_record_other_key [OF assms(2) this]
  show ?thesis by (simp add: drop_legacy_def assms(1) has_key_def delete_conv')
qed

text \<open>
  Claim C9. Let a record of the container hold a truthy value under a legacy solution key
  (\<open>key\<close> is the first such key) and have no \<open>id\<close> or a falsy one. Then the loop body
  for that record leaves the solutions directory as it is and sets \<open>changed\<close>, and when
  \<open>_load\<close> returns, the container has been rewritten and neither the stored nor the
  returned record has the key any more.
\<close>

theorem legacy_solution_without_id_lost:
  assumes "data_file fs = Some (Parsed items)" and "i < length items"
    and "legacy_key (items ! i) = Some key"
    and "\<not> truthy (dget (items ! i) (ascii ''id''))"
    and "load B fs = (Inr out, fs')"
  shows "\<exists>S. data_file fs' = Some (Parsed S) \<and> length S = length items
           \<and> \<not> has_key (S ! i) key \<and> length out = length items \<and> \<not> has_key (out ! i) key
           \<and> snd (load_record B (items ! i) (sols, changed)) = (sols, True)"
proof -
  from assms(1,5) obtain S where
    la: "list_all2 (\<lambda>rec n. normalize_record B (drop_legacy rec) = Inr n) items S"
    and out: "out = map (attach_has_solution B (fold (rec_sols B) items (solutions fs))) S"
    and fs': "fs' = (if \<exists>rec\<in>set items. rec_changed rec
            then fs\<lparr>solutions := fold (rec_sols B) items (solutions fs),
                    data_file := Some (Parsed S)\<rparr>
            else fs\<lparr>solutions := fold (rec_sols B) items (solutions fs)\<rparr>)"
    by (rule load_Parsed)
  have len: "length S = length items" using la by (simp add: list_all2_lengthD)
  have ch: "\<exists>rec\<in>set items. rec_changed rec"
    using assms(2,3) by (auto simp: rec_changed_def intro!: bexI [of _ "items ! i"])
  have "normalize_record B (drop_legacy (items ! i)) = Inr (S ! i)"
    using la assms(2) by (simp add: list_all2_conv_all_nth)
  then have nk: "\<not> has_key (S ! i) key" by (rule drop_legacy_no_key [OF assms(3)])
  have kh: "key \<noteq> ascii ''has_solution''"
    using legacy_key_Some(1) [OF assms(3)] by (rule legacy_key_neq)
  have ok: "\<not> has_key (out ! i) key"
    using nk kh assms(2) len
    by (simp add: out attach_has_solution_def Let_def has_key_update)
  have st: "snd (load_record B (items ! i) (sols, changed)) = (sols, True)"
    using assms(3,4) by (simp add: load_record_eq rec_sols_def rec_changed_def)
  show ?thesis
    using ch fs' len nk ok st out by auto
qed

text \<open>
  An instance of C9: the text under \<open>solution\<close> is in neither the container nor a side-file
  after the load.
\<close>

theorem legacy_solution_without_id_lost_witness:
  "data_file (snd (load demo_lib anonymous_solution_store))
     = Some (Parsed [[(ascii ''title'', JStr (ascii ''two sum'')),
                      (ascii ''solved'', JBool False),
                      (ascii ''unsolved_stage'', JNull),
                      (ascii ''unsolved_custom_label'', JNull),
                      (ascii ''tags'', JList []),
                      (ascii ''assignee'', JNull)]])
   \<and> solutions (snd (load demo_lib anonymous_solution_store)) = Map.empty
   \<and> (\<exists>S. data_file (snd (load demo_lib anonymous_solution_store)) = Some (Parsed S)
          \<and> \<not> has_key (S ! 0) (ascii ''solution''))"
proof -
  define r where "r = [(ascii ''title'', JStr (ascii ''two sum'')),
          (ascii ''solution'', JStr (ascii ''use a hash map''))]"
  define n where "n = [(ascii ''title'', JStr (ascii ''two sum'')),
                      (ascii ''solved'', JBool False),
                      (ascii ''unsolved_stage'', JNull),
                      (ascii ''unsolved_custom_label'', JNull),
                      (ascii ''tags'', JList []),
                      (ascii ''assignee'', JNull)]"
  have d: "data_file anonymous_solution_store = Some (Parsed [r])"
    by (simp add: anonymous_solution_store_def r_def)
  have l: "load demo_lib anonymous_solution_store
     = (Inr [n @ [(ascii ''has_solution'', JBool False)]],
        anonymous_solution_store\<lparr>data_file := Some (Parsed [n])\<rparr>)"
    by (simp add: anonymous_solution_store_def n_def eval_defs)
  have k: "legacy_key ([r] ! 0) = Some (ascii ''solution'')"
    by (simp add: r_def legacy_key_def LEGACY_KEYS_def has_key_def dget_def ascii_def)
  have t: "\<not> truthy (dget ([r] ! 0) (ascii ''id''))"
    by (simp add: r_def dget_def)
  from legacy_solution_without_id_lost [OF d _ k t l]
  have e: "\<exists>S. data_file (snd (load demo_lib anonymous_solution_store)) = Some (Parsed S)
          \<and> \<not> has_key (S ! 0) (ascii ''solution'')"
    by (auto simp: l)
  have a: "data_file (snd (load demo_lib anonymous_solution_store)) = Some (Parsed [n])"
    by (simp add: l)
  have "solutions (snd (load demo_lib anonymous_solution_store))
          = solutions anonymous_solution_store"
    by (simp add: l)
  then have b: "solutions (snd (load demo_lib anonymous_solution_store)) = Map.empty"
    by (simp add: anonymous_solution_store_def)
  from a b e show ?thesis unfolding n_def by blast
qed

end
